theory Spec2Isabelle
  imports Complex_Main
begin

section \<open>Floating-point values and their exact arithmetic\<close>

text \<open>
  The entries of a NumPy array of dtype float64 are modelled by real numbers extended with
  the three special values of IEEE 754: plus infinity, minus infinity and NaN.

  An IEEE operation returns the exact result of the operation, rounded. This section gives
  the exact results: on finite values the real-number result, on the special values what
  IEEE prescribes, which is what NumPy does on float64 scalars and arrays (a division by
  zero gives an infinity or NaN and a warning, never an exception). The next section gives
  the rounding, and the program is written over a rounding function, so that it can be run
  in float64 arithmetic, as NumPy runs it, and in exact real arithmetic, in which the
  formulas of the specification are written.

  Signed zeros are not modelled: the only divisors of the program are a sum of squares
  and a square root, whose zero is the positive one, so a zero divisor counts as +0.
\<close>

datatype fl = Fin real | PInf | NInf | NaN

fun fl_neg :: "fl \<Rightarrow> fl" where
  "fl_neg (Fin a) = Fin (- a)"
| "fl_neg PInf = NInf"
| "fl_neg NInf = PInf"
| "fl_neg NaN = NaN"

fun fl_add :: "fl \<Rightarrow> fl \<Rightarrow> fl" where
  "fl_add (Fin a) (Fin b) = Fin (a + b)"
| "fl_add (Fin a) PInf = PInf"
| "fl_add (Fin a) NInf = NInf"
| "fl_add PInf (Fin b) = PInf"
| "fl_add PInf PInf = PInf"
| "fl_add PInf NInf = NaN"
| "fl_add NInf (Fin b) = NInf"
| "fl_add NInf PInf = NaN"
| "fl_add NInf NInf = NInf"
| "fl_add NaN b = NaN"
| "fl_add a NaN = NaN"

definition fl_sub :: "fl \<Rightarrow> fl \<Rightarrow> fl" where
  "fl_sub a b = fl_add a (fl_neg b)"

fun fl_mul :: "fl \<Rightarrow> fl \<Rightarrow> fl" where
  "fl_mul (Fin a) (Fin b) = Fin (a * b)"
| "fl_mul (Fin a) PInf = (if 0 < a then PInf else if a < 0 then NInf else NaN)"
| "fl_mul (Fin a) NInf = (if 0 < a then NInf else if a < 0 then PInf else NaN)"
| "fl_mul PInf (Fin b) = (if 0 < b then PInf else if b < 0 then NInf else NaN)"
| "fl_mul NInf (Fin b) = (if 0 < b then NInf else if b < 0 then PInf else NaN)"
| "fl_mul PInf PInf = PInf"
| "fl_mul PInf NInf = NInf"
| "fl_mul NInf PInf = NInf"
| "fl_mul NInf NInf = PInf"
| "fl_mul NaN b = NaN"
| "fl_mul a NaN = NaN"

fun fl_div :: "fl \<Rightarrow> fl \<Rightarrow> fl" where
  "fl_div (Fin a) (Fin b) =
     (if b \<noteq> 0 then Fin (a / b)
      else if 0 < a then PInf else if a < 0 then NInf else NaN)"
| "fl_div (Fin a) PInf = Fin 0"
| "fl_div (Fin a) NInf = Fin 0"
| "fl_div PInf (Fin b) = (if 0 \<le> b then PInf else NInf)"
| "fl_div NInf (Fin b) = (if 0 \<le> b then NInf else PInf)"
| "fl_div PInf PInf = NaN"
| "fl_div PInf NInf = NaN"
| "fl_div NInf PInf = NaN"
| "fl_div NInf NInf = NaN"
| "fl_div NaN b = NaN"
| "fl_div a NaN = NaN"

text \<open>The exact square, for \<^verbatim>\<open>v ** 2\<close> on one entry.\<close>

definition fl_square :: "fl \<Rightarrow> fl" where
  "fl_square a = fl_mul a a"

text \<open>
  The exact results of \<^verbatim>\<open>np.sqrt\<close> and \<^verbatim>\<open>np.log\<close> on one entry, and \<^verbatim>\<open>np.abs\<close>, which
  is exact in float64 as well.
\<close>

fun np_sqrt :: "fl \<Rightarrow> fl" where
  "np_sqrt (Fin a) = (if a < 0 then NaN else Fin (sqrt a))"
| "np_sqrt PInf = PInf"
| "np_sqrt NInf = NaN"
| "np_sqrt NaN = NaN"

fun np_log :: "fl \<Rightarrow> fl" where
  "np_log (Fin a) = (if 0 < a then Fin (ln a) else if a = 0 then NInf else NaN)"
| "np_log PInf = PInf"
| "np_log NInf = NaN"
| "np_log NaN = NaN"

fun np_abs :: "fl \<Rightarrow> fl" where
  "np_abs (Fin a) = Fin \<bar>a\<bar>"
| "np_abs PInf = PInf"
| "np_abs NInf = PInf"
| "np_abs NaN = NaN"

text \<open>The comparison \<^verbatim>\<open>a > b\<close> of two floats: false as soon as one side is NaN.\<close>

fun fl_gt :: "fl \<Rightarrow> fl \<Rightarrow> bool" where
  "fl_gt (Fin a) (Fin b) = (b < a)"
| "fl_gt (Fin a) NInf = True"
| "fl_gt PInf (Fin b) = True"
| "fl_gt PInf NInf = True"
| "fl_gt a b = False"

fun is_Fin :: "fl \<Rightarrow> bool" where
  "is_Fin (Fin a) = True"
| "is_Fin a = False"

fun the_real :: "fl \<Rightarrow> real" where
  "the_real (Fin a) = a"
| "the_real a = 0"

section \<open>Rounding\<close>

text \<open>
  Rounding a real number to float64 (IEEE 754 binary64, round to nearest, ties to even):
  the number is rounded to a multiple of its unit in the last place, which is \<open>2^(e - 52)\<close>
  for a number of binary exponent e and \<open>2^(-1074)\<close> below the normal range (gradual
  underflow); a result of magnitude \<open>2^1024\<close> or more overflows to an infinity.
\<close>

definition rne :: "real \<Rightarrow> int" where
  "rne q =
     (let f = \<lfloor>q\<rfloor>; d = q - of_int f
      in if d < 1 / 2 then f else if 1 / 2 < d then f + 1 else if even f then f else f + 1)"

definition r64 :: "real \<Rightarrow> fl" where
  "r64 x =
     (if x = 0 then Fin 0
      else
        let e = max \<lfloor>log 2 \<bar>x\<bar>\<rfloor> (- 1022);
            ulp = 2 powi (e - 52);
            r = of_int (rne (x / ulp)) * ulp
        in if 2 ^ 1024 \<le> \<bar>r\<bar> then (if 0 < x then PInf else NInf) else Fin r)"

text \<open>
  The operations of the program over a rounding function \<open>rnd\<close>: the exact result, rounded
  when it is finite. With \<open>rnd = r64\<close> they are the float64 operations of NumPy; with
  \<open>rnd = Fin\<close> nothing is rounded and they are the exact operations of the first section.
  The logarithm of the C library is not required to be correctly rounded; the float64
  logarithm is taken here as the correctly rounded one, which agrees with the C library
  at 1 (where the result is 0) and on the special values.
\<close>

fun rounded :: "(real \<Rightarrow> fl) \<Rightarrow> fl \<Rightarrow> fl" where
  "rounded rnd (Fin a) = rnd a"
| "rounded rnd PInf = PInf"
| "rounded rnd NInf = NInf"
| "rounded rnd NaN = NaN"

definition r_add :: "(real \<Rightarrow> fl) \<Rightarrow> fl \<Rightarrow> fl \<Rightarrow> fl" where
  "r_add rnd a b = rounded rnd (fl_add a b)"

definition r_sub :: "(real \<Rightarrow> fl) \<Rightarrow> fl \<Rightarrow> fl \<Rightarrow> fl" where
  "r_sub rnd a b = rounded rnd (fl_sub a b)"

definition r_mul :: "(real \<Rightarrow> fl) \<Rightarrow> fl \<Rightarrow> fl \<Rightarrow> fl" where
  "r_mul rnd a b = rounded rnd (fl_mul a b)"

definition r_div :: "(real \<Rightarrow> fl) \<Rightarrow> fl \<Rightarrow> fl \<Rightarrow> fl" where
  "r_div rnd a b = rounded rnd (fl_div a b)"

definition r_sqrt :: "(real \<Rightarrow> fl) \<Rightarrow> fl \<Rightarrow> fl" where
  "r_sqrt rnd a = rounded rnd (np_sqrt a)"

definition r_log :: "(real \<Rightarrow> fl) \<Rightarrow> fl \<Rightarrow> fl" where
  "r_log rnd a = rounded rnd (np_log a)"

section \<open>Arrays\<close>

text \<open>
  An \<^verbatim>\<open>ndarray\<close> of one or two dimensions, as \<^verbatim>\<open>np.asarray\<close> returns it for a
  waveform: a 1-D array is its entries; a 2-D array is its two extents (samples, channels)
  and its entries in row-major order. Arrays of any other dimension are outside the model.
\<close>

datatype ndarray = Array1 "fl list" | Array2 nat nat "fl list"

fun shape :: "ndarray \<Rightarrow> nat list" where
  "shape (Array1 v) = [length v]"
| "shape (Array2 n c d) = [n, c]"

definition ndim :: "ndarray \<Rightarrow> nat" where
  "ndim a = length (shape a)"

text \<open>A 2-D array is well formed when its buffer holds samples times channels entries.\<close>

fun wf_array :: "ndarray \<Rightarrow> bool" where
  "wf_array (Array1 v) = True"
| "wf_array (Array2 n c d) = (length d = n * c)"

text \<open>\<^verbatim>\<open>np.atleast_2d\<close>: a 1-D array of length N becomes the 2-D array of shape (1, N).\<close>

fun np_atleast_2d :: "ndarray \<Rightarrow> ndarray" where
  "np_atleast_2d (Array1 v) = Array2 1 (length v) v"
| "np_atleast_2d (Array2 n c d) = Array2 n c d"

text \<open>The attribute \<^verbatim>\<open>.T\<close>: entry (j, r) of the result is entry (r, j) of the array.\<close>

fun transpose_T :: "ndarray \<Rightarrow> ndarray" where
  "transpose_T (Array1 v) = Array1 v"
| "transpose_T (Array2 n c d) =
     Array2 c n (concat (map (\<lambda>j. map (\<lambda>r. d ! (r * c + j)) [0..<n]) [0..<c]))"

text \<open>
  The slice \<^verbatim>\<open>x[:, i]\<close>, channel i of a 2-D array. The program only slices after it has
  made both arrays two-dimensional; on a 1-D array NumPy raises IndexError, a branch
  that no call of the program reaches.
\<close>

fun col :: "ndarray \<Rightarrow> nat \<Rightarrow> fl list" where
  "col (Array2 n c d) i = map (\<lambda>r. d ! (r * c + i)) [0..<n]"
| "col (Array1 v) i = []"

text \<open>\<^verbatim>\<open>k * x\<close>, a scalar times an array.\<close>

fun scale_rnd :: "(real \<Rightarrow> fl) \<Rightarrow> fl \<Rightarrow> ndarray \<Rightarrow> ndarray" where
  "scale_rnd rnd k (Array1 v) = Array1 (map (r_mul rnd k) v)"
| "scale_rnd rnd k (Array2 n c d) = Array2 n c (map (r_mul rnd k) d)"

text \<open>
  \<^verbatim>\<open>np.sum\<close> of a vector (0.0 when it is empty) and \<^verbatim>\<open>np.dot\<close> of two vectors. The terms
  are added from left to right; NumPy and the BLAS library may add the terms of a long
  vector in another order, which changes nothing in exact arithmetic nor, in float64, on
  the vectors of one or two entries that are evaluated below.
\<close>

definition np_sum_rnd :: "(real \<Rightarrow> fl) \<Rightarrow> fl list \<Rightarrow> fl" where
  "np_sum_rnd rnd v = fold (\<lambda>a s. r_add rnd s a) v (Fin 0)"

definition np_dot_rnd :: "(real \<Rightarrow> fl) \<Rightarrow> fl list \<Rightarrow> fl list \<Rightarrow> fl" where
  "np_dot_rnd rnd a b = np_sum_rnd rnd (map2 (r_mul rnd) a b)"

section \<open>The program\<close>

datatype error = AssertionError | ValueError

definition vec_norm_rnd :: "(real \<Rightarrow> fl) \<Rightarrow> fl list \<Rightarrow> fl" where
  "vec_norm_rnd rnd v = r_sqrt rnd (np_sum_rnd rnd (map (\<lambda>a. r_mul rnd a a) v))"

text \<open>
  \<^verbatim>\<open>np.max\<close> of an array: ValueError on an empty one, NaN as soon as one entry is NaN.
\<close>

definition np_maximum :: "fl \<Rightarrow> fl \<Rightarrow> fl" where
  "np_maximum a b = (if a = NaN then NaN else if b = NaN then NaN else if fl_gt b a then b else a)"

fun np_max :: "fl list \<Rightarrow> error + fl" where
  "np_max [] = Inl ValueError"
| "np_max (a # as) = Inr (fold (\<lambda>b m. np_maximum m b) as a)"

text \<open>
  Python's builtin \<^verbatim>\<open>max\<close> of a list: ValueError on an empty one; otherwise it keeps the
  first item and replaces it by each later item that compares greater.
\<close>

fun py_max :: "fl list \<Rightarrow> error + fl" where
  "py_max [] = Inl ValueError"
| "py_max (a # as) = Inr (fold (\<lambda>b m. if fl_gt b m then b else m) as a)"

text \<open>
  The first loop: \<^verbatim>\<open>alphas = np.zeros((n_channels,))\<close>, then one assignment
  \<^verbatim>\<open>alphas[i] = np.dot(x[:, i], y[:, i]) / np.dot(x[:, i], x[:, i])\<close> per channel.
\<close>

definition compute_alphas_rnd ::
    "(real \<Rightarrow> fl) \<Rightarrow> ndarray \<Rightarrow> ndarray \<Rightarrow> nat \<Rightarrow> fl list" where
  "compute_alphas_rnd rnd x y n_channels =
     fold (\<lambda>i alphas.
             alphas[i := r_div rnd (np_dot_rnd rnd (col x i) (col y i))
                                   (np_dot_rnd rnd (col x i) (col x i))])
          [0..<n_channels] (replicate n_channels (Fin 0))"

text \<open>
  The second loop: \<^verbatim>\<open>d_1 = 0.\<close>, then
  \<^verbatim>\<open>d_1 += vec_norm(alphas[i] * x[:, i] - y[:, i]) / vec_norm(y[:, i])\<close> per channel.
\<close>

definition compute_d_1_rnd ::
    "(real \<Rightarrow> fl) \<Rightarrow> ndarray \<Rightarrow> ndarray \<Rightarrow> fl list \<Rightarrow> nat \<Rightarrow> fl" where
  "compute_d_1_rnd rnd x y alphas n_channels =
     fold (\<lambda>i d_1.
             r_add rnd d_1
               (r_div rnd
                  (vec_norm_rnd rnd
                     (map2 (r_sub rnd) (map (r_mul rnd (alphas ! i)) (col x i)) (col y i)))
                  (vec_norm_rnd rnd (col y i))))
          [0..<n_channels] (Fin 0)"

text \<open>
  The two nested loops that append \<^verbatim>\<open>np.abs(np.log(alphas[i]) - np.log(alphas[j]))\<close>
  to the list \<^verbatim>\<open>d_2b\<close>.
\<close>

definition compute_d_2b_rnd :: "(real \<Rightarrow> fl) \<Rightarrow> fl list \<Rightarrow> nat \<Rightarrow> fl list" where
  "compute_d_2b_rnd rnd alphas n_channels =
     fold (\<lambda>i d_2b.
             fold (\<lambda>j d_2b.
                     d_2b @ [np_abs (r_sub rnd (r_log rnd (alphas ! i)) (r_log rnd (alphas ! j)))])
                  [0..<n_channels] d_2b)
          [0..<n_channels] []"

text \<open>
  The body of the program from \<^verbatim>\<open>n_channels = x.shape[1]\<close> on, run on the two arrays
  once they are two-dimensional. The two maxima are the only operations that can raise.
\<close>

definition distance_2d_rnd ::
    "(real \<Rightarrow> fl) \<Rightarrow> ndarray \<Rightarrow> ndarray \<Rightarrow> error + ndarray" where
  "distance_2d_rnd rnd x y =
     (let n_channels = shape x ! 1;
          alphas = compute_alphas_rnd rnd x y n_channels;
          d_1 = compute_d_1_rnd rnd x y alphas n_channels
      in case np_max (map np_abs (map (r_log rnd) alphas)) of
           Inl e \<Rightarrow> Inl e
         | Inr d_2a \<Rightarrow>
             (case py_max (compute_d_2b_rnd rnd alphas n_channels) of
                Inl e \<Rightarrow> Inl e
              | Inr m \<Rightarrow> Inr (Array1 [d_1, r_add rnd d_2a m])))"

text \<open>
  The program: the assertion on the shapes of the two arrays as they come in, then the
  block \<^verbatim>\<open>if x.ndim == 1\<close> that turns both into single-channel 2-D arrays, then the body.
\<close>

definition compute_waveform_distance_rnd ::
    "(real \<Rightarrow> fl) \<Rightarrow> ndarray \<Rightarrow> ndarray \<Rightarrow> error + ndarray" where
  "compute_waveform_distance_rnd rnd x y =
     (if shape x \<noteq> shape y then Inl AssertionError
      else if ndim x = 1
        then distance_2d_rnd rnd (transpose_T (np_atleast_2d x)) (transpose_T (np_atleast_2d y))
        else distance_2d_rnd rnd x y)"

section \<open>The program in exact real arithmetic\<close>

text \<open>
  The program and its parts with no rounding, under the names of the source. Whatever is
  stated below of \<open>compute_waveform_distance\<close> is stated of the program run in exact real
  arithmetic; the program run in float64 arithmetic is \<open>compute_waveform_distance_rnd r64\<close>.
\<close>

abbreviation scale :: "fl \<Rightarrow> ndarray \<Rightarrow> ndarray" where
  "scale \<equiv> scale_rnd Fin"

abbreviation np_sum :: "fl list \<Rightarrow> fl" where
  "np_sum \<equiv> np_sum_rnd Fin"

abbreviation np_dot :: "fl list \<Rightarrow> fl list \<Rightarrow> fl" where
  "np_dot \<equiv> np_dot_rnd Fin"

abbreviation vec_norm :: "fl list \<Rightarrow> fl" where
  "vec_norm \<equiv> vec_norm_rnd Fin"

abbreviation compute_alphas :: "ndarray \<Rightarrow> ndarray \<Rightarrow> nat \<Rightarrow> fl list" where
  "compute_alphas \<equiv> compute_alphas_rnd Fin"

abbreviation compute_d_1 :: "ndarray \<Rightarrow> ndarray \<Rightarrow> fl list \<Rightarrow> nat \<Rightarrow> fl" where
  "compute_d_1 \<equiv> compute_d_1_rnd Fin"

abbreviation compute_d_2b :: "fl list \<Rightarrow> nat \<Rightarrow> fl list" where
  "compute_d_2b \<equiv> compute_d_2b_rnd Fin"

abbreviation distance_2d :: "ndarray \<Rightarrow> ndarray \<Rightarrow> error + ndarray" where
  "distance_2d \<equiv> distance_2d_rnd Fin"

abbreviation compute_waveform_distance :: "ndarray \<Rightarrow> ndarray \<Rightarrow> error + ndarray" where
  "compute_waveform_distance \<equiv> compute_waveform_distance_rnd Fin"

text \<open>A float64 number whose square overflows, for the evaluations in float64.\<close>

definition big :: real where
  "big = 2 ^ 512"

section \<open>The formulas of the specification\<close>

text \<open>
  The two arrays as the specification speaks of them: a 1-D input normalized to the
  single-channel 2-D form of shape (N, 1), with its channel count.
\<close>

definition as_2d :: "ndarray \<Rightarrow> ndarray" where
  "as_2d x = (if ndim x = 1 then transpose_T (np_atleast_2d x) else x)"

definition n_channels_of :: "ndarray \<Rightarrow> nat" where
  "n_channels_of x = shape x ! 1"

text \<open>The scaling factor \<open>alpha_i = dot(x_i, y_i) / dot(x_i, x_i)\<close> of one channel.\<close>

definition spec_alpha :: "fl list \<Rightarrow> fl list \<Rightarrow> fl" where
  "spec_alpha xi yi = fl_div (np_dot xi yi) (np_dot xi xi)"

text \<open>A sum written as a sum, and the Euclidean norm \<open>sqrt(sum(v^2))\<close>.\<close>

primrec fl_sum :: "fl list \<Rightarrow> fl" where
  "fl_sum [] = Fin 0"
| "fl_sum (a # as) = fl_add a (fl_sum as)"



text \<open>The logarithms \<open>log(alpha_i)\<close> of all channels, in channel order.\<close>

definition spec_log_alphas :: "ndarray \<Rightarrow> ndarray \<Rightarrow> fl list" where
  "spec_log_alphas x y =
     map (\<lambda>i. np_log (spec_alpha (col x i) (col y i))) [0..<n_channels_of x]"

text \<open>
  The same quantities over the real numbers, for channels whose entries are all finite:
  dot product, least-squares factor, sum of squared differences and Euclidean norm.
\<close>

definition dot_r :: "real list \<Rightarrow> real list \<Rightarrow> real" where
  "dot_r xs ys = sum_list (map2 (\<lambda>u v. u * v) xs ys)"

definition alpha_r :: "real list \<Rightarrow> real list \<Rightarrow> real" where
  "alpha_r xs ys = dot_r xs ys / dot_r xs xs"


definition norm_r :: "real list \<Rightarrow> real" where
  "norm_r v = sqrt (sum_list (map (\<lambda>u. u\<^sup>2) v))"

text \<open>Channel i read as real numbers, and the two conditions on a channel.\<close>

definition channel :: "ndarray \<Rightarrow> nat \<Rightarrow> real list" where
  "channel x i = map the_real (col x i)"

definition finite_channel :: "ndarray \<Rightarrow> nat \<Rightarrow> bool" where
  "finite_channel x i = list_all is_Fin (col x i)"

definition nonzero_channel :: "ndarray \<Rightarrow> nat \<Rightarrow> bool" where
  "nonzero_channel x i = list_ex (\<lambda>e. e \<noteq> Fin 0) (col x i)"

definition zero_channel :: "ndarray \<Rightarrow> nat \<Rightarrow> bool" where
  "zero_channel x i = list_all (\<lambda>e. e = Fin 0) (col x i)"

text \<open>The array \<^verbatim>\<open>alphas\<close> that the program fills on the inputs x and y.\<close>

definition scaling_factors :: "ndarray \<Rightarrow> ndarray \<Rightarrow> fl list" where
  "scaling_factors x y = compute_alphas (as_2d x) (as_2d y) (n_channels_of (as_2d x))"



section \<open>The operations without rounding\<close>

lemma rounded_Fin [simp]: "rounded Fin a = a"
  by (cases a) simp_all

lemma r_add_exact [simp]: "r_add Fin = fl_add"
  by (intro ext) (simp add: r_add_def)

lemma r_sub_exact [simp]: "r_sub Fin = fl_sub"
  by (intro ext) (simp add: r_sub_def)

lemma r_mul_exact [simp]: "r_mul Fin = fl_mul"
  by (intro ext) (simp add: r_mul_def)

lemma r_div_exact [simp]: "r_div Fin = fl_div"
  by (intro ext) (simp add: r_div_def)

lemma r_sqrt_exact [simp]: "r_sqrt Fin = np_sqrt"
  by (intro ext) (simp add: r_sqrt_def)

lemma r_log_exact [simp]: "r_log Fin = np_log"
  by (intro ext) (simp add: r_log_def)

lemma scale_simps [simp]:
  "scale k (Array1 v) = Array1 (map (fl_mul k) v)"
  "scale k (Array2 n c d) = Array2 n c (map (fl_mul k) d)"
  by simp_all

lemma np_sum_def: "np_sum v = fold (\<lambda>a s. fl_add s a) v (Fin 0)"
  by (simp add: np_sum_rnd_def)

lemma np_dot_def: "np_dot a b = np_sum (map2 fl_mul a b)"
  by (simp add: np_dot_rnd_def)

lemma vec_norm_def: "vec_norm v = np_sqrt (np_sum (map fl_square v))"
proof -
  have "fl_square = (\<lambda>a. fl_mul a a)"
    by (rule ext) (simp add: fl_square_def)
  then show ?thesis
    by (simp add: vec_norm_rnd_def)
qed

lemma compute_alphas_def:
  "compute_alphas x y n_channels =
     fold (\<lambda>i alphas.
             alphas[i := fl_div (np_dot (col x i) (col y i)) (np_dot (col x i) (col x i))])
          [0..<n_channels] (replicate n_channels (Fin 0))"
  by (simp add: compute_alphas_rnd_def)

lemma compute_d_1_def:
  "compute_d_1 x y alphas n_channels =
     fold (\<lambda>i d_1.
             fl_add d_1
               (fl_div (vec_norm (map2 fl_sub (map (fl_mul (alphas ! i)) (col x i)) (col y i)))
                       (vec_norm (col y i))))
          [0..<n_channels] (Fin 0)"
  by (simp add: compute_d_1_rnd_def)

lemma compute_d_2b_def:
  "compute_d_2b alphas n_channels =
     fold (\<lambda>i d_2b.
             fold (\<lambda>j d_2b. d_2b @ [np_abs (fl_sub (np_log (alphas ! i)) (np_log (alphas ! j)))])
                  [0..<n_channels] d_2b)
          [0..<n_channels] []"
  by (simp add: compute_d_2b_rnd_def)

lemma distance_2d_def:
  "distance_2d x y =
     (let n_channels = shape x ! 1;
          alphas = compute_alphas x y n_channels;
          d_1 = compute_d_1 x y alphas n_channels
      in case np_max (map np_abs (map np_log alphas)) of
           Inl e \<Rightarrow> Inl e
         | Inr d_2a \<Rightarrow>
             (case py_max (compute_d_2b alphas n_channels) of
                Inl e \<Rightarrow> Inl e
              | Inr m \<Rightarrow> Inr (Array1 [d_1, fl_add d_2a m])))"
  unfolding distance_2d_rnd_def r_add_exact r_log_exact by (rule refl)

lemma compute_waveform_distance_def:
  "compute_waveform_distance x y =
     (if shape x \<noteq> shape y then Inl AssertionError
      else if ndim x = 1
        then distance_2d (transpose_T (np_atleast_2d x)) (transpose_T (np_atleast_2d y))
        else distance_2d x y)"
  by (rule compute_waveform_distance_rnd_def)

section \<open>Arithmetic of the floating-point values\<close>

lemma fl_add_NaN_right [simp]: "fl_add a NaN = NaN"
  by (cases a) simp_all

lemma fl_mul_NaN_right [simp]: "fl_mul a NaN = NaN"
  by (cases a) simp_all

lemma fl_div_NaN_right [simp]: "fl_div a NaN = NaN"
  by (cases a) simp_all

lemma fl_sub_NaN_left [simp]: "fl_sub NaN b = NaN"
  by (simp add: fl_sub_def)

lemma fl_sub_Fin [simp]: "fl_sub (Fin a) (Fin b) = Fin (a - b)"
  by (simp add: fl_sub_def)

lemma fl_square_Fin [simp]: "fl_square (Fin a) = Fin (a * a)"
  by (simp add: fl_square_def)

lemma fl_square_NaN [simp]: "fl_square NaN = NaN"
  by (simp add: fl_square_def)

lemma fl_add_assoc: "fl_add (fl_add a b) c = fl_add a (fl_add b c)"
  by (cases a; cases b; cases c) simp_all

lemma fl_add_zero_left [simp]: "fl_add (Fin 0) a = a"
  by (cases a) simp_all

lemma is_Fin_iff: "is_Fin a \<longleftrightarrow> (\<exists>r. a = Fin r)"
  by (cases a) simp_all

lemma is_Fin_fl_add: "is_Fin (fl_add a b) \<Longrightarrow> is_Fin a \<and> is_Fin b"
  by (cases a; cases b) simp_all

lemma is_Fin_fl_mul: "is_Fin (fl_mul a b) \<Longrightarrow> is_Fin a \<and> is_Fin b"
  by (cases a; cases b) (simp_all split: if_splits)

lemma all_Fin_map: "list_all is_Fin v \<Longrightarrow> v = map Fin (map the_real v)"
  by (induction v) (auto simp: is_Fin_iff)

section \<open>Sums, dot products and norms\<close>

lemma fold_fl_add: "fold (\<lambda>a s. fl_add s a) v s = fl_add s (fl_sum v)"
proof (induction v arbitrary: s)
  case Nil
  show ?case by (cases s) simp_all
next
  case (Cons a v)
  then show ?case by (simp add: fl_add_assoc)
qed

lemma np_sum_fl_sum: "np_sum v = fl_sum v"
  by (simp add: np_sum_def fold_fl_add)


lemma fl_sum_Fin: "fl_sum (map Fin rs) = Fin (sum_list rs)"
  by (induction rs) simp_all

lemma fl_sum_NaN: "NaN \<in> set v \<Longrightarrow> fl_sum v = NaN"
  by (induction v) auto

lemma fl_sum_zero_or_NaN:
  "\<forall>e \<in> set v. e = Fin 0 \<or> e = NaN \<Longrightarrow> fl_sum v = Fin 0 \<or> fl_sum v = NaN"
  by (induction v) auto

lemma map2_fl_mul_Fin: "map2 fl_mul (map Fin xs) (map Fin ys) = map Fin (map2 (\<lambda>u v. u * v) xs ys)"
  by (auto simp: zip_map_map)

lemma np_dot_Fin: "np_dot (map Fin xs) (map Fin ys) = Fin (dot_r xs ys)"
  by (simp only: np_dot_def np_sum_fl_sum map2_fl_mul_Fin fl_sum_Fin dot_r_def)

lemma dot_r_self_nonneg: "0 \<le> dot_r xs xs"
  unfolding dot_r_def by (induction xs) simp_all

lemma dot_r_self_squares: "dot_r xs xs = sum_list (map (\<lambda>u. u\<^sup>2) xs)"
  unfolding dot_r_def by (induction xs) (simp_all add: power2_eq_square)

lemma dot_r_self_zero_iff: "dot_r xs xs = 0 \<longleftrightarrow> (\<forall>u \<in> set xs. u = 0)"
proof (induction xs)
  case Nil
  show ?case by (simp add: dot_r_def)
next
  case (Cons u xs)
  have eq: "dot_r (u # xs) (u # xs) = u * u + dot_r xs xs"
    by (simp add: dot_r_def)
  have "u * u + dot_r xs xs = 0 \<longleftrightarrow> u * u = 0 \<and> dot_r xs xs = 0"
    using dot_r_self_nonneg [of xs] by (intro add_nonneg_eq_0_iff) simp_all
  with Cons eq show ?case by simp
qed

lemma vec_norm_Fin: "vec_norm (map Fin v) = Fin (norm_r v)"
proof -
  have "map fl_square (map Fin v) = map Fin (map (\<lambda>u. u * u) v)"
    by simp
  moreover have "0 \<le> sum_list (map (\<lambda>u. u * u) v)"
    by (rule sum_list_nonneg) auto
  ultimately show ?thesis
    by (simp add: vec_norm_def np_sum_fl_sum fl_sum_Fin norm_r_def power2_eq_square
        del: map_map)
qed

lemma np_dot_is_Fin:
  "length xi = length yi \<Longrightarrow> is_Fin (np_dot xi yi) \<Longrightarrow> list_all is_Fin xi \<and> list_all is_Fin yi"
proof (induction xi yi rule: list_induct2)
  case Nil
  show ?case by simp
next
  case (Cons a xi b yi)
  from Cons.prems have "is_Fin (fl_add (fl_mul a b) (fl_sum (map2 fl_mul xi yi)))"
    by (simp add: np_dot_def np_sum_fl_sum)
  then have "is_Fin (fl_mul a b)" and "is_Fin (fl_sum (map2 fl_mul xi yi))"
    by (auto dest: is_Fin_fl_add)
  with Cons.IH show ?case
    by (auto simp: np_dot_def np_sum_fl_sum dest: is_Fin_fl_mul)
qed

lemma scaled_residual_Fin:
  "map2 fl_sub (map (fl_mul (Fin a)) (map Fin xs)) (map Fin ys)
     = map Fin (map2 (\<lambda>u v. a * u - v) xs ys)"
  by (auto simp: zip_map_map)

section \<open>The maxima\<close>





lemma np_maximum_NaN_left [simp]: "np_maximum NaN b = NaN"
  by (simp add: np_maximum_def)

lemma np_maximum_NaN_right [simp]: "np_maximum a NaN = NaN"
  by (simp add: np_maximum_def)

lemma np_max_fold_NaN: "fold (\<lambda>b m. np_maximum m b) v NaN = NaN"
  by (induction v) simp_all

lemma np_max_fold_has_NaN: "NaN \<in> set v \<Longrightarrow> fold (\<lambda>b m. np_maximum m b) v a = NaN"
  by (induction v arbitrary: a) (auto simp: np_max_fold_NaN)

lemma np_max_NaN: "NaN \<in> set v \<Longrightarrow> np_max v = Inr NaN"
  by (cases v) (auto simp: np_max_fold_has_NaN np_max_fold_NaN)

lemma np_max_nonempty: "v \<noteq> [] \<Longrightarrow> \<exists>m. np_max v = Inr m"
  by (cases v) simp_all

lemma py_max_nonempty: "v \<noteq> [] \<Longrightarrow> \<exists>m. py_max v = Inr m"
  by (cases v) simp_all

section \<open>The loops as list expressions\<close>

lemma fold_update_replicate:
  "m \<le> n \<Longrightarrow>
   fold (\<lambda>i a. a[i := f i]) [0..<m] (replicate n z) = map f [0..<m] @ replicate (n - m) z"
proof (induction m)
  case 0
  then show ?case by simp
next
  case (Suc m)
  then have "m < n" by simp
  then have r: "replicate (n - m) z = z # replicate (n - Suc m) z"
    by (metis Suc_diff_Suc replicate_Suc)
  from Suc show ?case
    by (simp add: list_update_append r)
qed

lemma compute_alphas_map:
  "compute_alphas x y n = map (\<lambda>i. spec_alpha (col x i) (col y i)) [0..<n]"
  unfolding compute_alphas_def spec_alpha_def by (simp add: fold_update_replicate)

lemma compute_alphas_nth:
  "i < n \<Longrightarrow> compute_alphas x y n ! i = spec_alpha (col x i) (col y i)"
  by (simp add: compute_alphas_map)

lemma length_compute_alphas [simp]: "length (compute_alphas x y n) = n"
  by (simp add: compute_alphas_map)

lemma fold_append_single: "fold (\<lambda>j acc. acc @ [h j]) js acc = acc @ map h js"
  by (induction js arbitrary: acc) simp_all

lemma fold_append_lists: "fold (\<lambda>i acc. acc @ F i) is acc = acc @ concat (map F is)"
  by (induction "is" arbitrary: acc) simp_all

lemma compute_d_2b_concat:
  "compute_d_2b alphas n =
     concat (map (\<lambda>i. map (\<lambda>j. np_abs (fl_sub (np_log (alphas ! i)) (np_log (alphas ! j))))
                         [0..<n]) [0..<n])"
proof -
  have inner: "\<And>h. fold (\<lambda>j acc. acc @ [h j]) [0..<n] = (\<lambda>acc. acc @ map h [0..<n])"
    by (rule ext) (rule fold_append_single)
  show ?thesis
    unfolding compute_d_2b_def by (simp add: inner fold_append_lists)
qed

lemma compute_d_2b_nonempty: "0 < n \<Longrightarrow> compute_d_2b alphas n \<noteq> []"
  by (cases n) (simp_all add: compute_d_2b_concat upt_rec [of 0])

lemma compute_d_1_sum:
  "compute_d_1 x y alphas n =
     fl_sum (map (\<lambda>i. fl_div
                        (vec_norm (map2 fl_sub (map (fl_mul (alphas ! i)) (col x i)) (col y i)))
                        (vec_norm (col y i))) [0..<n])"
proof -
  have "compute_d_1 x y alphas n =
     np_sum (map (\<lambda>i. fl_div
                        (vec_norm (map2 fl_sub (map (fl_mul (alphas ! i)) (col x i)) (col y i)))
                        (vec_norm (col y i))) [0..<n])"
    unfolding compute_d_1_def np_sum_def by (simp add: fold_map comp_def)
  then show ?thesis by (simp add: np_sum_fl_sum)
qed

section \<open>Shapes and the normalization of 1-D input\<close>

lemma as_2d_Array1 [simp]: "as_2d (Array1 v) = Array2 (length v) 1 v"
  by (simp add: as_2d_def ndim_def map_nth)

lemma as_2d_Array2 [simp]: "as_2d (Array2 n c d) = Array2 n c d"
  by (simp add: as_2d_def ndim_def)

lemma length_col [simp]: "length (col (Array2 n c d) i) = n"
  by simp

lemma length_col_as_2d:
  "shape x = shape y \<Longrightarrow> length (col (as_2d x) i) = length (col (as_2d y) i)"
  by (cases x; cases y) simp_all

lemma distance_2d_returns:
  assumes "0 < n_channels_of x"
  obtains d_2a m where
    "np_max (map np_abs (map np_log (compute_alphas x y (n_channels_of x)))) = Inr d_2a"
    and "py_max (compute_d_2b (compute_alphas x y (n_channels_of x)) (n_channels_of x)) = Inr m"
    and "distance_2d x y =
      Inr (Array1 [compute_d_1 x y (compute_alphas x y (n_channels_of x)) (n_channels_of x),
                   fl_add d_2a m])"
proof -
  let ?C = "n_channels_of x"
  let ?al = "compute_alphas x y ?C"
  have "map np_abs (map np_log ?al) \<noteq> []"
    using assms by (simp add: compute_alphas_map)
  then obtain d_2a where a: "np_max (map np_abs (map np_log ?al)) = Inr d_2a"
    using np_max_nonempty by blast
  obtain m where b: "py_max (compute_d_2b ?al ?C) = Inr m"
    using py_max_nonempty [OF compute_d_2b_nonempty [OF assms]] by blast
  have "distance_2d x y = Inr (Array1 [compute_d_1 x y ?al ?C, fl_add d_2a m])"
    using a b unfolding distance_2d_def n_channels_of_def Let_def by simp
  with a b show ?thesis by (rule that)
qed

lemma distance_2d_no_channel:
  assumes "n_channels_of x = 0"
  shows "distance_2d x y = Inl ValueError"
  using assms unfolding distance_2d_def n_channels_of_def Let_def
  by (simp add: compute_alphas_map)

lemma compute_waveform_distance_as_2d:
  "compute_waveform_distance x y =
     (if shape x \<noteq> shape y then Inl AssertionError else distance_2d (as_2d x) (as_2d y))"
proof (cases "shape x = shape y")
  case True
  then have "ndim y = ndim x"
    by (simp add: ndim_def)
  then show ?thesis
    by (simp add: compute_waveform_distance_def as_2d_def)
next
  case False
  then show ?thesis
    by (simp add: compute_waveform_distance_def)
qed

section \<open>One channel over the real numbers\<close>



lemma spec_alpha_Fin:
  "dot_r xs xs \<noteq> 0 \<Longrightarrow> spec_alpha (map Fin xs) (map Fin ys) = Fin (alpha_r xs ys)"
  by (simp add: spec_alpha_def np_dot_Fin alpha_r_def)

lemma norm_r_zero_iff: "norm_r v = 0 \<longleftrightarrow> dot_r v v = 0"
proof -
  have "0 \<le> sum_list (map (\<lambda>u. u\<^sup>2) v)"
    by (rule sum_list_nonneg) auto
  then show ?thesis
    by (simp add: norm_r_def dot_r_self_squares)
qed


lemma residual_term_Fin:
  "dot_r ys ys \<noteq> 0 \<Longrightarrow>
   fl_div (vec_norm (map2 fl_sub (map (fl_mul (Fin a)) (map Fin xs)) (map Fin ys)))
          (vec_norm (map Fin ys))
     = Fin (norm_r (map2 (\<lambda>u v. a * u - v) xs ys) / norm_r ys)"
  by (simp only: scaled_residual_Fin vec_norm_Fin) (simp add: norm_r_zero_iff)

lemma spec_alpha_Fin_inversion:
  assumes len: "length xi = length yi" and fin: "is_Fin (spec_alpha xi yi)"
  shows "list_all is_Fin xi \<and> list_all is_Fin yi
         \<and> dot_r (map the_real xi) (map the_real xi) \<noteq> 0"
proof -
  have num: "is_Fin (np_dot xi yi)"
    using fin unfolding spec_alpha_def
    by (cases "np_dot xi yi"; cases "np_dot xi xi") (simp_all split: if_splits)
  then have all: "list_all is_Fin xi \<and> list_all is_Fin yi"
    using len by (rule np_dot_is_Fin [rotated])
  then have xi: "xi = map Fin (map the_real xi)" and yi: "yi = map Fin (map the_real yi)"
    by (blast intro: all_Fin_map)+
  have "spec_alpha xi yi = spec_alpha (map Fin (map the_real xi)) (map Fin (map the_real yi))"
    using xi yi by simp
  then have "is_Fin (fl_div (Fin (dot_r (map the_real xi) (map the_real yi)))
                   (Fin (dot_r (map the_real xi) (map the_real xi))))"
    using fin by (simp only: spec_alpha_def np_dot_Fin)
  then have "dot_r (map the_real xi) (map the_real xi) \<noteq> 0"
    by (auto split: if_splits)
  with all show ?thesis by simp
qed

lemma nonzero_dot_r:
  "list_all is_Fin v \<Longrightarrow> list_ex (\<lambda>e. e \<noteq> Fin 0) v \<Longrightarrow>
   dot_r (map the_real v) (map the_real v) \<noteq> 0"
proof -
  assume fin: "list_all is_Fin v" and ex: "list_ex (\<lambda>e. e \<noteq> Fin 0) v"
  from ex obtain e where e: "e \<in> set v" "e \<noteq> Fin 0"
    by (auto simp: list_ex_iff)
  with fin obtain r where "e = Fin r"
    by (auto simp: list_all_iff is_Fin_iff)
  with e have "the_real e \<in> set (map the_real v)" and "the_real e \<noteq> 0"
    by (auto intro: rev_image_eqI)
  then show ?thesis
    unfolding dot_r_self_zero_iff by blast
qed


lemma up2: "[0..<2] = [0, 1]"
  by (simp add: upt_rec)

lemma up3: "[0..<3] = [0, 1, 2]"
  by (simp add: upt_rec)

section \<open>C1: when the program raises\<close>

text \<open>
  C1, as the code has it. The assertion compares the shapes of the two arrays as they come
  in, before the 1-D case is turned into the single-channel 2-D form: the program raises
  AssertionError if and only if these shapes differ. When they are equal and there is at
  least one channel, it returns an array of exactly two numbers. When they are equal and the
  arrays have no channel at all, the maximum over the empty array of factors raises
  ValueError.
\<close>

theorem shape_check_on_input_shapes:
  "(compute_waveform_distance x y = Inl AssertionError \<longleftrightarrow> shape x \<noteq> shape y)
   \<and> (shape x = shape y \<and> 0 < n_channels_of (as_2d x) \<longrightarrow>
        (\<exists>d_1 d_2. compute_waveform_distance x y = Inr (Array1 [d_1, d_2])))
   \<and> (shape x = shape y \<and> n_channels_of (as_2d x) = 0 \<longrightarrow>
        compute_waveform_distance x y = Inl ValueError)"
proof (cases "shape x = shape y")
  case False
  then show ?thesis
    by (simp add: compute_waveform_distance_as_2d)
next
  case True
  show ?thesis
  proof (cases "n_channels_of (as_2d x) = 0")
    case zero: True
    then show ?thesis
      using True by (simp add: compute_waveform_distance_as_2d distance_2d_no_channel)
  next
    case False
    then have pos: "0 < n_channels_of (as_2d x)"
      by simp
    obtain d_1 d_2 where "distance_2d (as_2d x) (as_2d y) = Inr (Array1 [d_1, d_2])"
      using distance_2d_returns [OF pos, of "as_2d y"] by metis
    then show ?thesis
      using True pos by (simp add: compute_waveform_distance_as_2d)
  qed
qed

theorem shape_check_on_input_shapes_witness:
  "shape (Array2 3 1 [Fin 1, Fin 2, Fin 3]) = shape (Array2 3 1 [Fin 2, Fin 4, Fin 6])
   \<and> 0 < n_channels_of (as_2d (Array2 3 1 [Fin 1, Fin 2, Fin 3]))
   \<and> (\<exists>d_1 d_2. compute_waveform_distance (Array2 3 1 [Fin 1, Fin 2, Fin 3])
                    (Array2 3 1 [Fin 2, Fin 4, Fin 6]) = Inr (Array1 [d_1, d_2]))
   \<and> shape (Array2 2 0 []) = shape (Array2 2 0 [])
   \<and> n_channels_of (as_2d (Array2 2 0 [])) = 0
   \<and> compute_waveform_distance (Array2 2 0 []) (Array2 2 0 []) = Inl ValueError
   \<and> shape (Array1 [Fin 1, Fin 2]) \<noteq> shape (Array1 [Fin 1, Fin 2, Fin 3])
   \<and> compute_waveform_distance (Array1 [Fin 1, Fin 2]) (Array1 [Fin 1, Fin 2, Fin 3])
       = Inl AssertionError"
  using shape_check_on_input_shapes [of "Array2 3 1 [Fin 1, Fin 2, Fin 3]"
          "Array2 3 1 [Fin 2, Fin 4, Fin 6]"]
        shape_check_on_input_shapes [of "Array2 2 0 []" "Array2 2 0 []"]
        shape_check_on_input_shapes [of "Array1 [Fin 1, Fin 2]" "Array1 [Fin 1, Fin 2, Fin 3]"]
  by (simp add: n_channels_of_def)

text \<open>
  C1 as stated fails: a 1-D array of three samples and the 2-D array of shape (3, 1) with
  the same samples have the same shape once the 1-D one is normalized, and the program
  raises AssertionError on them.
\<close>

theorem shape_check_after_normalizing_counterexample:
  "shape (as_2d (Array1 [Fin 1, Fin 2, Fin 3])) = shape (as_2d (Array2 3 1 [Fin 1, Fin 2, Fin 3]))
   \<and> compute_waveform_distance (Array1 [Fin 1, Fin 2, Fin 3]) (Array2 3 1 [Fin 1, Fin 2, Fin 3])
       = Inl AssertionError"
  by (simp add: compute_waveform_distance_def)

section \<open>C5: 1-D input and its single-channel 2-D form\<close>

text \<open>
  C5: on two 1-D arrays the program returns what it returns on the same data given as 2-D
  arrays of shape (N, 1). This holds for the error as well, when the lengths differ.
\<close>

theorem one_dimensional_input_equivalence:
  "compute_waveform_distance (Array1 xs) (Array1 ys) =
   compute_waveform_distance (Array2 (length xs) 1 xs) (Array2 (length ys) 1 ys)"
  by (simp add: compute_waveform_distance_as_2d)

section \<open>C2: the scaling factors\<close>

lemma finite_channel_col: "finite_channel x i \<Longrightarrow> col x i = map Fin (channel x i)"
  unfolding finite_channel_def channel_def by (rule all_Fin_map)


lemma scaling_factors_nth:
  "i < n_channels_of (as_2d x) \<Longrightarrow>
   scaling_factors x y ! i = spec_alpha (col (as_2d x) i) (col (as_2d y) i)"
  by (simp add: scaling_factors_def compute_alphas_nth)

text \<open>
  The program in terms of \<open>scaling_factors\<close>: on two arrays of equal shape it computes this
  array, and the two distances from it.
\<close>

lemma compute_waveform_distance_scaling_factors:
  assumes "shape x = shape y"
  shows "compute_waveform_distance x y =
     (case np_max (map np_abs (map np_log (scaling_factors x y))) of
        Inl e \<Rightarrow> Inl e
      | Inr d_2a \<Rightarrow>
          (case py_max (compute_d_2b (scaling_factors x y) (n_channels_of (as_2d x))) of
             Inl e \<Rightarrow> Inl e
           | Inr m \<Rightarrow>
               Inr (Array1 [compute_d_1 (as_2d x) (as_2d y) (scaling_factors x y)
                              (n_channels_of (as_2d x)),
                            fl_add d_2a m])))"
  unfolding scaling_factors_def n_channels_of_def compute_waveform_distance_as_2d
    distance_2d_def Let_def
  using assms by simp



section \<open>C3: the shape distance\<close>





section \<open>C4: the scale distance\<close>


lemma length_spec_log_alphas [simp]: "length (spec_log_alphas x y) = n_channels_of x"
  by (simp add: spec_log_alphas_def)








section \<open>C6: a channel of x that is entirely zero\<close>

lemma mem_map: "a \<in> set v \<Longrightarrow> f a \<in> set (map f v)"
  by simp

lemma fl_div_zero_or_NaN:
  "p = Fin 0 \<or> p = NaN \<Longrightarrow> q = Fin 0 \<or> q = NaN \<Longrightarrow> fl_div p q = NaN"
  by auto

lemma np_dot_zero_left:
  assumes "list_all (\<lambda>e. e = Fin 0) xi"
  shows "np_dot xi yi = Fin 0 \<or> np_dot xi yi = NaN"
proof -
  have "e = Fin 0 \<or> e = NaN" if "e \<in> set (map2 fl_mul xi yi)" for e
  proof -
    from that obtain a b where "(a, b) \<in> set (zip xi yi)" and e: "e = fl_mul a b"
      by auto
    then have "a = Fin 0"
      using assms by (auto simp: list_all_iff dest: set_zip_leftD)
    with e show ?thesis
      by (cases b) simp_all
  qed
  then show ?thesis
    unfolding np_dot_def np_sum_fl_sum by (intro fl_sum_zero_or_NaN) blast
qed

lemma spec_alpha_zero_channel:
  "list_all (\<lambda>e. e = Fin 0) xi \<Longrightarrow> spec_alpha xi yi = NaN"
  unfolding spec_alpha_def by (intro fl_div_zero_or_NaN np_dot_zero_left)

lemma vec_norm_Nil [simp]: "vec_norm [] = Fin 0"
  by (simp add: vec_norm_def np_sum_def)

lemma vec_norm_has_NaN: "NaN \<in> set v \<Longrightarrow> vec_norm v = NaN"
proof -
  assume "NaN \<in> set v"
  then have "fl_square NaN \<in> set (map fl_square v)"
    by (rule mem_map)
  then have "fl_sum (map fl_square v) = NaN"
    by (intro fl_sum_NaN) simp
  then show ?thesis
    by (simp add: vec_norm_def np_sum_fl_sum)
qed

lemma residual_term_NaN:
  assumes "length xi = length yi"
  shows "fl_div (vec_norm (map2 fl_sub (map (fl_mul NaN) xi) yi)) (vec_norm yi) = NaN"
proof (cases xi)
  case Nil
  with assms show ?thesis by simp
next
  case (Cons a xi')
  with assms obtain b yi' where "yi = b # yi'"
    by (cases yi) simp_all
  with Cons have "NaN \<in> set (map2 fl_sub (map (fl_mul NaN) xi) yi)"
    by simp
  then show ?thesis
    by (simp add: vec_norm_has_NaN)
qed

text \<open>
  C6: for two arrays of equal shape in which channel i of x is entirely zero, the factor of
  that channel is NaN and the program does not raise: it returns the two numbers, and both
  are NaN.
\<close>

theorem zero_channel_gives_NaN:
  assumes "shape x = shape y" and "i < n_channels_of (as_2d x)"
    and "zero_channel (as_2d x) i"
  shows "scaling_factors x y ! i = NaN
         \<and> compute_waveform_distance x y = Inr (Array1 [NaN, NaN])"
proof -
  let ?C = "n_channels_of (as_2d x)"
  let ?al = "compute_alphas (as_2d x) (as_2d y) ?C"
  have pos: "0 < ?C"
    using assms(2) by simp
  have al: "?al ! i = NaN"
    using assms(2,3) by (simp add: compute_alphas_nth spec_alpha_zero_channel zero_channel_def)
  obtain d_2a m where
    a: "np_max (map np_abs (map np_log ?al)) = Inr d_2a"
    and r: "distance_2d (as_2d x) (as_2d y) =
       Inr (Array1 [compute_d_1 (as_2d x) (as_2d y) ?al ?C, fl_add d_2a m])"
    using distance_2d_returns [OF pos, of "as_2d y"] by metis
  have "?al ! i \<in> set ?al"
    using assms(2) by (intro nth_mem) simp
  then have "NaN \<in> set ?al"
    by (simp only: al)
  then have "np_abs (np_log NaN) \<in> set (map np_abs (map np_log ?al))"
    by (intro mem_map)
  then have "np_max (map np_abs (map np_log ?al)) = Inr NaN"
    by (intro np_max_NaN) simp
  with a have d2: "d_2a = NaN"
    by simp
  let ?t = "\<lambda>j. fl_div (vec_norm (map2 fl_sub (map (fl_mul (?al ! j)) (col (as_2d x) j))
                                    (col (as_2d y) j)))
                     (vec_norm (col (as_2d y) j))"
  have "?t i = NaN"
    unfolding al by (rule residual_term_NaN) (rule length_col_as_2d [OF assms(1)])
  moreover have "?t i \<in> set (map ?t [0..<?C])"
    using assms(2) by (intro mem_map) simp
  ultimately have "NaN \<in> set (map ?t [0..<?C])"
    by simp
  then have d1: "compute_d_1 (as_2d x) (as_2d y) ?al ?C = NaN"
    unfolding compute_d_1_sum by (rule fl_sum_NaN)
  show ?thesis
    using al r assms(1) unfolding d1 d2
    by (simp add: scaling_factors_def compute_waveform_distance_as_2d)
qed

theorem zero_channel_gives_NaN_witness:
  "shape (Array2 2 2 [Fin 1, Fin 0, Fin 2, Fin 0]) = shape (Array2 2 2 [Fin 1, Fin 1, Fin 1, Fin 1])
   \<and> 1 < n_channels_of (as_2d (Array2 2 2 [Fin 1, Fin 0, Fin 2, Fin 0]))
   \<and> zero_channel (as_2d (Array2 2 2 [Fin 1, Fin 0, Fin 2, Fin 0])) 1
   \<and> scaling_factors (Array2 2 2 [Fin 1, Fin 0, Fin 2, Fin 0])
                      (Array2 2 2 [Fin 1, Fin 1, Fin 1, Fin 1]) ! 1 = NaN
   \<and> compute_waveform_distance (Array2 2 2 [Fin 1, Fin 0, Fin 2, Fin 0])
                                (Array2 2 2 [Fin 1, Fin 1, Fin 1, Fin 1])
       = Inr (Array1 [NaN, NaN])"
proof -
  let ?x = "Array2 2 2 [Fin 1, Fin 0, Fin 2, Fin 0]" and ?y = "Array2 2 2 [Fin 1, Fin 1, Fin 1, Fin 1]"
  have sh: "shape ?x = shape ?y"
    by simp
  have idx: "1 < n_channels_of (as_2d ?x)"
    by (simp add: n_channels_of_def)
  have z: "zero_channel (as_2d ?x) 1"
    by (simp add: zero_channel_def up2)
  from zero_channel_gives_NaN [OF sh idx z] sh idx z show ?thesis
    by (simp only: simp_thms)
qed

section \<open>C7 and C8: equal waveforms, and a waveform against a multiple of itself\<close>

lemma dot_r_scale_right: "dot_r xs (map (\<lambda>u. k * u) ys) = k * dot_r xs ys"
proof (induction xs arbitrary: ys)
  case Nil
  show ?case by (simp add: dot_r_def)
next
  case (Cons u xs)
  have step: "dot_r (u # xs) (v # vs) = u * v + dot_r xs vs" for v vs
    by (simp add: dot_r_def)
  show ?case
  proof (cases ys)
    case Nil
    then show ?thesis by (simp add: dot_r_def)
  next
    case (Cons v vs)
    then show ?thesis
      using Cons.IH [of vs] by (simp add: step algebra_simps)
  qed
qed

lemma dot_r_commute: "dot_r xs ys = dot_r ys xs"
proof (induction xs arbitrary: ys)
  case Nil
  show ?case by (simp add: dot_r_def)
next
  case (Cons u xs)
  show ?case
  proof (cases ys)
    case Nil
    then show ?thesis by (simp add: dot_r_def)
  next
    case (Cons v vs)
    then show ?thesis
      using Cons.IH [of vs] by (simp add: dot_r_def)
  qed
qed

lemma dot_r_scale_left: "dot_r (map (\<lambda>u. k * u) xs) ys = k * dot_r xs ys"
  using dot_r_scale_right [of ys k xs] by (simp add: dot_r_commute)

lemma residual_exact:
  "map2 (\<lambda>u v. a * u - v) xs (map (\<lambda>u. a * u) xs) = replicate (length xs) (0::real)"
  by (induction xs) simp_all

lemma norm_r_replicate_zero: "norm_r (replicate n 0) = 0"
  by (simp add: norm_r_def sum_list_replicate)



lemma scaled_channel_alpha:
  assumes "dot_r xs xs \<noteq> 0"
  shows "spec_alpha (map Fin xs) (map Fin (map (\<lambda>u. k * u) xs)) = Fin k"
  using assms by (simp add: spec_alpha_Fin alpha_r_def dot_r_scale_right del: map_map)

lemma scaled_channel_residual:
  assumes "dot_r xs xs \<noteq> 0" and "k \<noteq> 0"
  shows "fl_div (vec_norm (map2 fl_sub (map (fl_mul (Fin k)) (map Fin xs))
                                       (map Fin (map (\<lambda>u. k * u) xs))))
                (vec_norm (map Fin (map (\<lambda>u. k * u) xs))) = Fin 0"
proof -
  have "dot_r (map (\<lambda>u. k * u) xs) (map (\<lambda>u. k * u) xs) \<noteq> 0"
    using assms by (simp add: dot_r_scale_right dot_r_scale_left)
  then show ?thesis
    by (simp add: residual_term_Fin residual_exact norm_r_replicate_zero del: map_map)
qed

lemma finite_nonzero_channel:
  assumes "finite_channel x i" and "nonzero_channel x i"
  shows "col x i = map Fin (channel x i)" and "dot_r (channel x i) (channel x i) \<noteq> 0"
  using assms finite_channel_col [of x i]
  unfolding channel_def finite_channel_def nonzero_channel_def
  by (simp_all add: nonzero_dot_r)






lemma index_in_buffer: "r < n \<Longrightarrow> i < c \<Longrightarrow> r * c + i < n * (c::nat)"
proof -
  assume r: "r < n" and i: "i < c"
  from i have "r * c + i < Suc r * c"
    by simp
  moreover from r have "Suc r * c \<le> n * c"
    by (intro mult_le_mono1) simp
  ultimately show ?thesis
    by (rule less_le_trans)
qed

lemma col_scale:
  assumes "length d = n * c" and "i < c"
  shows "col (scale k (Array2 n c d)) i = map (fl_mul k) (col (Array2 n c d) i)"
  using assms by (simp add: index_in_buffer)

lemma shape_scale [simp]: "shape (scale k x) = shape x"
  by (cases x) simp_all

lemma col_as_2d_scale:
  assumes "wf_array x" and "i < n_channels_of (as_2d x)"
  shows "col (as_2d (scale k x)) i = map (fl_mul k) (col (as_2d x) i)"
proof (cases x)
  case (Array1 v)
  with assms(2) show ?thesis
    using col_scale [of v "length v" 1 i k] by (simp add: n_channels_of_def)
next
  case (Array2 n c d)
  with assms show ?thesis
    using col_scale [of d n c i k] by (simp add: n_channels_of_def)
qed

lemma n_channels_scale [simp]: "n_channels_of (as_2d (scale k x)) = n_channels_of (as_2d x)"
  by (cases x) (simp_all add: n_channels_of_def)

lemma map_fl_mul_Fin: "map (fl_mul (Fin k)) (map Fin xs) = map Fin (map (\<lambda>u. k * u) xs)"
  by simp

text \<open>
  C8, as it holds: in exact real arithmetic, for a single-channel array x of finite numbers
  that are not all zero and a real \<open>k > 0\<close>, the program run on x and \<open>k * x\<close> computes the
  factor k and returns \<open>[0, |log(k)|]\<close>. In float64 arithmetic this fails where a dot
  product overflows, as the last section shows.
\<close>

theorem pure_scaling_single_channel:
  assumes "wf_array x" and "n_channels_of (as_2d x) = 1"
    and "finite_channel (as_2d x) 0" and "nonzero_channel (as_2d x) 0" and "0 < k"
  shows "scaling_factors x (scale (Fin k) x) = [Fin k]
         \<and> compute_waveform_distance x (scale (Fin k) x) = Inr (Array1 [Fin 0, Fin \<bar>ln k\<bar>])"
proof -
  let ?X = "channel (as_2d x) 0"
  let ?y = "scale (Fin k) x"
  have pos: "0 < n_channels_of (as_2d x)"
    using assms(2) by simp
  have cx: "col (as_2d x) 0 = map Fin ?X" and dx: "dot_r ?X ?X \<noteq> 0"
    using finite_nonzero_channel [OF assms(3,4)] by simp_all
  have cy: "col (as_2d ?y) 0 = map Fin (map (\<lambda>u. k * u) ?X)"
    using col_as_2d_scale [OF assms(1) pos, of "Fin k"] by (simp only: cx map_fl_mul_Fin)
  have al: "compute_alphas (as_2d x) (as_2d ?y) 1 = [Fin k]"
    by (simp add: compute_alphas_map cx cy scaled_channel_alpha [OF dx] del: map_map)
  have d1: "compute_d_1 (as_2d x) (as_2d ?y) [Fin k] 1 = Fin 0"
    using scaled_channel_residual [OF dx, of k] assms(5)
    by (simp add: compute_d_1_sum cx cy del: map_map)
  have d2a: "np_max (map np_abs (map np_log [Fin k])) = Inr (Fin \<bar>ln k\<bar>)"
    using assms(5) by simp
  have d2b: "py_max (compute_d_2b [Fin k] 1) = Inr (Fin 0)"
    using assms(5) by (simp add: compute_d_2b_concat)
  have "distance_2d (as_2d x) (as_2d ?y) = Inr (Array1 [Fin 0, Fin \<bar>ln k\<bar>])"
    using al d1 d2a d2b assms(2)
    by (simp add: distance_2d_def n_channels_of_def Let_def)
  then show ?thesis
    using al assms(2) by (simp add: scaling_factors_def compute_waveform_distance_as_2d)
qed

theorem pure_scaling_single_channel_witness:
  "wf_array (Array2 3 1 [Fin 1, Fin 2, Fin 3])
   \<and> n_channels_of (as_2d (Array2 3 1 [Fin 1, Fin 2, Fin 3])) = 1
   \<and> finite_channel (as_2d (Array2 3 1 [Fin 1, Fin 2, Fin 3])) 0
   \<and> nonzero_channel (as_2d (Array2 3 1 [Fin 1, Fin 2, Fin 3])) 0
   \<and> (0::real) < 2
   \<and> scale (Fin 2) (Array2 3 1 [Fin 1, Fin 2, Fin 3]) = Array2 3 1 [Fin 2, Fin 4, Fin 6]
   \<and> scaling_factors (Array2 3 1 [Fin 1, Fin 2, Fin 3]) (Array2 3 1 [Fin 2, Fin 4, Fin 6])
       = [Fin 2]
   \<and> compute_waveform_distance (Array2 3 1 [Fin 1, Fin 2, Fin 3]) (Array2 3 1 [Fin 2, Fin 4, Fin 6])
       = Inr (Array1 [Fin 0, Fin (ln 2)])"
proof -
  let ?x = "Array2 3 1 [Fin 1, Fin 2, Fin 3]"
  have w: "wf_array ?x"
    by simp
  have C: "n_channels_of (as_2d ?x) = 1"
    by (simp add: n_channels_of_def)
  have f: "finite_channel (as_2d ?x) 0" and nz: "nonzero_channel (as_2d ?x) 0"
    by (simp_all add: finite_channel_def nonzero_channel_def up3)
  have k: "(0::real) < 2"
    by simp
  have s: "scale (Fin 2) ?x = Array2 3 1 [Fin 2, Fin 4, Fin 6]"
    by simp
  have "scaling_factors ?x (scale (Fin 2) ?x) = [Fin 2]
        \<and> compute_waveform_distance ?x (scale (Fin 2) ?x) = Inr (Array1 [Fin 0, Fin \<bar>ln 2\<bar>])"
    using w C f nz k by (rule pure_scaling_single_channel)
  then have "scaling_factors ?x (Array2 3 1 [Fin 2, Fin 4, Fin 6]) = [Fin 2]
        \<and> compute_waveform_distance ?x (Array2 3 1 [Fin 2, Fin 4, Fin 6])
            = Inr (Array1 [Fin 0, Fin (ln 2)])"
    unfolding s by simp
  with w C f nz k s show ?thesis
    by (simp only: simp_thms)
qed

section \<open>C10: both distances are nonnegative\<close>

lemma channels_of_finite_alpha:
  assumes "shape x = shape y" and "i < n_channels_of (as_2d x)"
    and "is_Fin (scaling_factors x y ! i)"
  shows "finite_channel (as_2d x) i" and "finite_channel (as_2d y) i"
    and "dot_r (channel (as_2d x) i) (channel (as_2d x) i) \<noteq> 0"
  using spec_alpha_Fin_inversion [OF length_col_as_2d [OF assms(1), of i]] assms(2,3)
  by (simp_all add: scaling_factors_nth finite_channel_def channel_def)





section \<open>C9: replacing x by a positive multiple of itself\<close>

lemma log_diff_scale:
  assumes "0 < k"
  shows "fl_sub (np_log (Fin (a / k))) (np_log (Fin (b / k)))
           = fl_sub (np_log (Fin a)) (np_log (Fin b))"
  using assms by (simp add: fl_sub_def ln_div zero_less_divide_iff)

lemma alpha_r_scale_left:
  assumes "k \<noteq> 0"
  shows "alpha_r (map (\<lambda>u. k * u) xs) ys = alpha_r xs ys / k"
  using assms by (simp add: alpha_r_def dot_r_scale_left dot_r_scale_right)

lemma residual_scale_left:
  "k \<noteq> 0 \<Longrightarrow>
   map2 (\<lambda>u v. a / k * u - v) (map (\<lambda>u. k * u) xs) ys
     = map2 (\<lambda>u v. a * u - v) xs (ys :: real list)"
  by (simp add: zip_map1 split_def)

lemma scaled_x_channel:
  assumes "dot_r xs xs \<noteq> 0" and "0 < k"
  shows "spec_alpha (map Fin (map (\<lambda>u. k * u) xs)) (map Fin ys) = Fin (alpha_r xs ys / k)"
    and "fl_div (vec_norm (map2 fl_sub (map (fl_mul (Fin (alpha_r xs ys / k)))
                                          (map Fin (map (\<lambda>u. k * u) xs)))
                                     (map Fin ys)))
               (vec_norm (map Fin ys))
         = fl_div (vec_norm (map2 fl_sub (map (fl_mul (Fin (alpha_r xs ys))) (map Fin xs))
                                         (map Fin ys)))
                  (vec_norm (map Fin ys))"
proof -
  have "dot_r (map (\<lambda>u. k * u) xs) (map (\<lambda>u. k * u) xs) \<noteq> 0"
    using assms by (simp add: dot_r_scale_right dot_r_scale_left)
  moreover have "k \<noteq> 0"
    using assms(2) by simp
  ultimately show "spec_alpha (map Fin (map (\<lambda>u. k * u) xs)) (map Fin ys) = Fin (alpha_r xs ys / k)"
    using spec_alpha_Fin [of "map (\<lambda>u. k * u) xs" ys] alpha_r_scale_left [of k xs ys] by simp
  have "map2 (\<lambda>u v. alpha_r xs ys / k * u - v) (map (\<lambda>u. k * u) xs) ys
          = map2 (\<lambda>u v. alpha_r xs ys * u - v) xs ys"
    using assms(2) by (intro residual_scale_left) simp
  then show "fl_div (vec_norm (map2 fl_sub (map (fl_mul (Fin (alpha_r xs ys / k)))
                                          (map Fin (map (\<lambda>u. k * u) xs)))
                                     (map Fin ys)))
               (vec_norm (map Fin ys))
         = fl_div (vec_norm (map2 fl_sub (map (fl_mul (Fin (alpha_r xs ys))) (map Fin xs))
                                         (map Fin ys)))
                  (vec_norm (map Fin ys))"
    by (simp only: scaled_residual_Fin)
qed

text \<open>
  C9: for two arrays of equal shape, x well formed, every scaling factor a real number
  (every \<open>alpha_i\<close> well defined) and a real \<open>k > 0\<close>: with \<open>k * x\<close> in place of x every
  factor is divided by k, the sum that the program returns as \<open>d_1\<close> is the same, and the
  list \<open>d_2b\<close> of absolute log differences, hence its maximum, is the same. With at least
  one channel both calls return, with the same first number and the same maximum of
  \<open>d_2b\<close> in the second.
\<close>

theorem rescaling_x_keeps_d_1_and_d_2b:
  assumes "shape x = shape y" and "wf_array x" and "0 < k"
    and "\<forall>i<n_channels_of (as_2d x). is_Fin (scaling_factors x y ! i)"
  shows "(\<forall>i<n_channels_of (as_2d x).
            scaling_factors (scale (Fin k) x) y ! i = fl_div (scaling_factors x y ! i) (Fin k))
         \<and> compute_d_1 (as_2d (scale (Fin k) x)) (as_2d y) (scaling_factors (scale (Fin k) x) y)
               (n_channels_of (as_2d x))
             = compute_d_1 (as_2d x) (as_2d y) (scaling_factors x y) (n_channels_of (as_2d x))
         \<and> compute_d_2b (scaling_factors (scale (Fin k) x) y) (n_channels_of (as_2d x))
             = compute_d_2b (scaling_factors x y) (n_channels_of (as_2d x))
         \<and> (0 < n_channels_of (as_2d x) \<longrightarrow>
              (\<exists>d_1 d_2a d_2a' d_2b.
                 compute_waveform_distance x y = Inr (Array1 [d_1, fl_add d_2a d_2b])
                 \<and> compute_waveform_distance (scale (Fin k) x) y
                     = Inr (Array1 [d_1, fl_add d_2a' d_2b])
                 \<and> py_max (compute_d_2b (scaling_factors x y) (n_channels_of (as_2d x)))
                     = Inr d_2b))"
proof -
  let ?C = "n_channels_of (as_2d x)"
  let ?kx = "scale (Fin k) x"
  let ?al = "compute_alphas (as_2d x) (as_2d y) ?C"
  let ?al' = "compute_alphas (as_2d ?kx) (as_2d y) ?C"
  let ?X = "\<lambda>i. channel (as_2d x) i" and ?Y = "\<lambda>i. channel (as_2d y) i"
  have sf: "scaling_factors x y = ?al" and sf': "scaling_factors ?kx y = ?al'"
    by (simp_all add: scaling_factors_def)
  have ch: "col (as_2d x) i = map Fin (?X i) \<and> col (as_2d y) i = map Fin (?Y i)
            \<and> dot_r (?X i) (?X i) \<noteq> 0
            \<and> col (as_2d ?kx) i = map Fin (map (\<lambda>u. k * u) (?X i))" if "i < ?C" for i
  proof -
    from that assms(4) have "is_Fin (scaling_factors x y ! i)"
      by simp
    from channels_of_finite_alpha [OF assms(1) that this]
    have cx: "col (as_2d x) i = map Fin (?X i)" and cy: "col (as_2d y) i = map Fin (?Y i)"
      and d: "dot_r (?X i) (?X i) \<noteq> 0"
      by (simp_all add: finite_channel_col)
    have "col (as_2d ?kx) i = map Fin (map (\<lambda>u. k * u) (?X i))"
      using col_as_2d_scale [OF assms(2) that, of "Fin k"] by (simp only: cx map_fl_mul_Fin)
    with cx cy d show ?thesis
      by simp
  qed
  have al: "?al ! i = Fin (alpha_r (?X i) (?Y i))" if "i < ?C" for i
    using ch [OF that] that by (simp add: compute_alphas_nth spec_alpha_Fin)
  have al': "?al' ! i = Fin (alpha_r (?X i) (?Y i) / k)" if "i < ?C" for i
    using ch [OF that] that assms(3)
    by (simp add: compute_alphas_nth scaled_x_channel(1) del: map_map)
  have factors: "\<forall>i<?C. scaling_factors ?kx y ! i = fl_div (scaling_factors x y ! i) (Fin k)"
    using al al' assms(3) unfolding sf sf' by simp
  have tm: "fl_div (vec_norm (map2 fl_sub (map (fl_mul (?al' ! i)) (col (as_2d ?kx) i))
                                          (col (as_2d y) i)))
                   (vec_norm (col (as_2d y) i))
            = fl_div (vec_norm (map2 fl_sub (map (fl_mul (?al ! i)) (col (as_2d x) i))
                                            (col (as_2d y) i)))
                     (vec_norm (col (as_2d y) i))" if "i < ?C" for i
  proof -
    from ch [OF that] have cx: "col (as_2d x) i = map Fin (?X i)"
      and cy: "col (as_2d y) i = map Fin (?Y i)"
      and d: "dot_r (?X i) (?X i) \<noteq> 0"
      and ckx: "col (as_2d ?kx) i = map Fin (map (\<lambda>u. k * u) (?X i))"
      by blast+
    show ?thesis
      unfolding al [OF that] al' [OF that] cx cy ckx
      by (rule scaled_x_channel(2) [OF d assms(3)])
  qed
  have d1: "compute_d_1 (as_2d ?kx) (as_2d y) ?al' ?C = compute_d_1 (as_2d x) (as_2d y) ?al ?C"
    unfolding compute_d_1_sum by (rule arg_cong [where f = fl_sum]) (simp add: tm)
  have el: "np_abs (fl_sub (np_log (?al' ! i)) (np_log (?al' ! j)))
            = np_abs (fl_sub (np_log (?al ! i)) (np_log (?al ! j)))"
    if "i < ?C" and "j < ?C" for i j
    by (simp only: al [OF that(1)] al [OF that(2)] al' [OF that(1)] al' [OF that(2)]
          log_diff_scale [OF assms(3)])
  have d2b: "compute_d_2b ?al' ?C = compute_d_2b ?al ?C"
    unfolding compute_d_2b_concat by (rule arg_cong [where f = concat]) (simp add: el)
  have both: "\<exists>d_1 d_2a d_2a' d_2b.
                 compute_waveform_distance x y = Inr (Array1 [d_1, fl_add d_2a d_2b])
                 \<and> compute_waveform_distance ?kx y = Inr (Array1 [d_1, fl_add d_2a' d_2b])
                 \<and> py_max (compute_d_2b (scaling_factors x y) ?C) = Inr d_2b"
    if pos: "0 < ?C"
  proof -
    obtain d_2a m where
      b: "py_max (compute_d_2b ?al ?C) = Inr m"
      and r: "distance_2d (as_2d x) (as_2d y) =
         Inr (Array1 [compute_d_1 (as_2d x) (as_2d y) ?al ?C, fl_add d_2a m])"
      using distance_2d_returns [OF pos, of "as_2d y"] by metis
    have pos': "0 < n_channels_of (as_2d ?kx)"
      using pos by simp
    obtain d_2a' m' where
      b': "py_max (compute_d_2b ?al' ?C) = Inr m'"
      and r': "distance_2d (as_2d ?kx) (as_2d y) =
         Inr (Array1 [compute_d_1 (as_2d ?kx) (as_2d y) ?al' ?C, fl_add d_2a' m'])"
      using distance_2d_returns [OF pos', of "as_2d y"] by (metis n_channels_scale)
    from b b' have m: "m' = m"
      unfolding d2b by simp
    have "compute_waveform_distance x y =
            Inr (Array1 [compute_d_1 (as_2d x) (as_2d y) ?al ?C, fl_add d_2a m])"
      using r assms(1) by (simp add: compute_waveform_distance_as_2d)
    moreover have "compute_waveform_distance ?kx y =
            Inr (Array1 [compute_d_1 (as_2d x) (as_2d y) ?al ?C, fl_add d_2a' m])"
      using r' assms(1) unfolding d1 m by (simp add: compute_waveform_distance_as_2d)
    ultimately show ?thesis
      using b unfolding sf by blast
  qed
  from factors d1 d2b both show ?thesis
    unfolding sf sf' by blast
qed

theorem rescaling_x_keeps_d_1_and_d_2b_witness:
  "shape (Array2 1 2 [Fin 1, Fin 1]) = shape (Array2 1 2 [Fin 1, Fin 2])
   \<and> wf_array (Array2 1 2 [Fin 1, Fin 1])
   \<and> (0::real) < 2
   \<and> n_channels_of (as_2d (Array2 1 2 [Fin 1, Fin 1])) = 2
   \<and> is_Fin (scaling_factors (Array2 1 2 [Fin 1, Fin 1]) (Array2 1 2 [Fin 1, Fin 2]) ! 0)
   \<and> is_Fin (scaling_factors (Array2 1 2 [Fin 1, Fin 1]) (Array2 1 2 [Fin 1, Fin 2]) ! 1)
   \<and> scaling_factors (scale (Fin 2) (Array2 1 2 [Fin 1, Fin 1])) (Array2 1 2 [Fin 1, Fin 2]) ! 0
       = fl_div (scaling_factors (Array2 1 2 [Fin 1, Fin 1]) (Array2 1 2 [Fin 1, Fin 2]) ! 0) (Fin 2)
   \<and> scaling_factors (scale (Fin 2) (Array2 1 2 [Fin 1, Fin 1])) (Array2 1 2 [Fin 1, Fin 2]) ! 1
       = fl_div (scaling_factors (Array2 1 2 [Fin 1, Fin 1]) (Array2 1 2 [Fin 1, Fin 2]) ! 1) (Fin 2)
   \<and> compute_d_1 (as_2d (scale (Fin 2) (Array2 1 2 [Fin 1, Fin 1]))) (as_2d (Array2 1 2 [Fin 1, Fin 2]))
         (scaling_factors (scale (Fin 2) (Array2 1 2 [Fin 1, Fin 1])) (Array2 1 2 [Fin 1, Fin 2])) 2
       = compute_d_1 (as_2d (Array2 1 2 [Fin 1, Fin 1])) (as_2d (Array2 1 2 [Fin 1, Fin 2]))
         (scaling_factors (Array2 1 2 [Fin 1, Fin 1]) (Array2 1 2 [Fin 1, Fin 2])) 2
   \<and> compute_d_2b (scaling_factors (scale (Fin 2) (Array2 1 2 [Fin 1, Fin 1]))
                       (Array2 1 2 [Fin 1, Fin 2])) 2
       = compute_d_2b (scaling_factors (Array2 1 2 [Fin 1, Fin 1]) (Array2 1 2 [Fin 1, Fin 2])) 2
   \<and> (\<exists>d_1 d_2a d_2a' d_2b.
         compute_waveform_distance (Array2 1 2 [Fin 1, Fin 1]) (Array2 1 2 [Fin 1, Fin 2])
           = Inr (Array1 [d_1, fl_add d_2a d_2b])
         \<and> compute_waveform_distance (scale (Fin 2) (Array2 1 2 [Fin 1, Fin 1]))
               (Array2 1 2 [Fin 1, Fin 2])
             = Inr (Array1 [d_1, fl_add d_2a' d_2b])
         \<and> py_max (compute_d_2b (scaling_factors (Array2 1 2 [Fin 1, Fin 1])
                                    (Array2 1 2 [Fin 1, Fin 2])) 2) = Inr d_2b)"
proof -
  let ?x = "Array2 1 2 [Fin 1, Fin 1]" and ?y = "Array2 1 2 [Fin 1, Fin 2]"
  have sh: "shape ?x = shape ?y"
    by simp
  have w: "wf_array ?x"
    by simp
  have k: "(0::real) < 2"
    by simp
  have C: "n_channels_of (as_2d ?x) = 2"
    by (simp add: n_channels_of_def)
  have sf: "scaling_factors ?x ?y = [Fin 1, Fin 2]"
    by (simp add: scaling_factors_def compute_alphas_map n_channels_of_def up2 spec_alpha_def
          np_dot_def np_sum_def)
  have f: "is_Fin (scaling_factors ?x ?y ! 0)" "is_Fin (scaling_factors ?x ?y ! 1)"
    unfolding sf by simp_all
  have all: "\<forall>i<n_channels_of (as_2d ?x). is_Fin (scaling_factors ?x ?y ! i)"
    unfolding C using f by (auto simp: less_2_cases_iff)
  note th = rescaling_x_keeps_d_1_and_d_2b [OF sh w k all, unfolded C]
  from th have "\<forall>i<2. scaling_factors (scale (Fin 2) ?x) ?y ! i
                        = fl_div (scaling_factors ?x ?y ! i) (Fin 2)"
    by (rule conjunct1)
  then have a: "scaling_factors (scale (Fin 2) ?x) ?y ! 0 = fl_div (scaling_factors ?x ?y ! 0) (Fin 2)"
    and b: "scaling_factors (scale (Fin 2) ?x) ?y ! 1 = fl_div (scaling_factors ?x ?y ! 1) (Fin 2)"
    by (simp_all only: zero_less_numeral one_less_numeral_iff semiring_norm simp_thms)
  from th have c: "compute_d_1 (as_2d (scale (Fin 2) ?x)) (as_2d ?y)
                     (scaling_factors (scale (Fin 2) ?x) ?y) 2
                   = compute_d_1 (as_2d ?x) (as_2d ?y) (scaling_factors ?x ?y) 2"
    by (rule conjunct2 [THEN conjunct1])
  from th have d: "compute_d_2b (scaling_factors (scale (Fin 2) ?x) ?y) 2
                   = compute_d_2b (scaling_factors ?x ?y) 2"
    by (rule conjunct2 [THEN conjunct2, THEN conjunct1])
  from th have "(0::nat) < 2 \<longrightarrow> (\<exists>d_1 d_2a d_2a' d_2b.
         compute_waveform_distance ?x ?y = Inr (Array1 [d_1, fl_add d_2a d_2b])
         \<and> compute_waveform_distance (scale (Fin 2) ?x) ?y = Inr (Array1 [d_1, fl_add d_2a' d_2b])
         \<and> py_max (compute_d_2b (scaling_factors ?x ?y) 2) = Inr d_2b)"
    by (rule conjunct2 [THEN conjunct2, THEN conjunct2])
  then have e: "\<exists>d_1 d_2a d_2a' d_2b.
         compute_waveform_distance ?x ?y = Inr (Array1 [d_1, fl_add d_2a d_2b])
         \<and> compute_waveform_distance (scale (Fin 2) ?x) ?y = Inr (Array1 [d_1, fl_add d_2a' d_2b])
         \<and> py_max (compute_d_2b (scaling_factors ?x ?y) 2) = Inr d_2b"
    by (simp only: zero_less_numeral simp_thms)
  from sh w k C f a b c d e show ?thesis
    by (simp only: simp_thms)
qed

section \<open>C7, C8 and C10 in float64 arithmetic\<close>

lemma rne_of_int [simp]: "rne (of_int n) = n"
  by (simp add: rne_def)

lemma r64_zero [simp]: "r64 0 = Fin 0"
  by (simp add: r64_def)

lemma ulp_pow2: "(2::real) powi (int n - 52) = 2 ^ n / 2 ^ 52"
  by (simp add: power_int_diff)

lemma quot_pow2: "(2::real) ^ n / (2 ^ n / 2 ^ 52) = of_int (2 ^ 52)"
  by simp

lemma pow2_overflow_iff: "(2::real) ^ 1024 \<le> 2 ^ n \<longleftrightarrow> 1024 \<le> n"
  by (rule power_increasing_iff) simp

lemma r64_pow2: "r64 (2 ^ n) = (if 1024 \<le> n then PInf else Fin (2 ^ n))"
proof -
  have e: "max \<lfloor>log 2 \<bar>(2::real) ^ n\<bar>\<rfloor> (- 1022) = int n"
    by simp
  have r: "of_int (rne ((2::real) ^ n / (2 ^ n / 2 ^ 52))) * (2 ^ n / 2 ^ 52) = (2::real) ^ n"
    unfolding quot_pow2 rne_of_int by simp
  have nz: "((2::real) ^ n = 0) = False" and ab: "\<bar>(2::real) ^ n\<bar> = 2 ^ n"
    and pos: "((0::real) < 2 ^ n) = True"
    by simp_all
  show ?thesis
    unfolding r64_def Let_def e ulp_pow2 r
    by (simp only: nz ab pos pow2_overflow_iff if_False if_True)
qed

lemma r64_neg_pow2: "r64 (- (2 ^ n)) = (if 1024 \<le> n then NInf else Fin (- (2 ^ n)))"
proof -
  have e: "max \<lfloor>log 2 \<bar>- ((2::real) ^ n)\<bar>\<rfloor> (- 1022) = int n"
    by simp
  have q: "- ((2::real) ^ n) / (2 ^ n / 2 ^ 52) = of_int (- (2 ^ 52))"
    by simp
  have r: "of_int (rne (- ((2::real) ^ n) / (2 ^ n / 2 ^ 52))) * (2 ^ n / 2 ^ 52) = - ((2::real) ^ n)"
    unfolding q rne_of_int by simp
  have nz: "(- ((2::real) ^ n) = 0) = False" and ab: "\<bar>- ((2::real) ^ n)\<bar> = 2 ^ n"
    and pos: "((0::real) < - (2 ^ n)) = False"
    by simp_all
  show ?thesis
    unfolding r64_def Let_def e ulp_pow2 r
    by (simp only: nz ab pos pow2_overflow_iff if_False if_True)
qed

lemma r64_one [simp]: "r64 1 = Fin 1"
  using r64_pow2 [of 0] by simp

lemma big_nonzero [simp]: "big \<noteq> 0"
  by (simp add: big_def)

lemma r64_big [simp]: "r64 big = Fin big"
  unfolding big_def r64_pow2 by simp

lemma r64_neg_big [simp]: "r64 (- big) = Fin (- big)"
  unfolding big_def r64_neg_pow2 by simp

lemma r64_big_square [simp]: "r64 (big * big) = PInf"
proof -
  have e: "big * big = 2 ^ 1024"
    by (simp add: big_def)
  show ?thesis
    unfolding e r64_pow2 by simp
qed

lemma r64_two_big [simp]: "r64 (2 * big) = Fin (2 * big)"
proof -
  have e: "2 * big = 2 ^ 513"
    by (simp add: big_def)
  show ?thesis
    unfolding e r64_pow2 by simp
qed

lemma r64_big_two_big [simp]: "r64 (big * (2 * big)) = PInf"
proof -
  have e: "big * (2 * big) = 2 ^ 1025"
    by (simp add: big_def)
  show ?thesis
    unfolding e r64_pow2 by simp
qed

lemmas float64_program =
  compute_waveform_distance_rnd_def distance_2d_rnd_def compute_alphas_rnd_def
  compute_d_1_rnd_def compute_d_2b_rnd_def vec_norm_rnd_def np_dot_rnd_def np_sum_rnd_def
  r_add_def r_sub_def r_mul_def r_div_def r_sqrt_def r_log_def fl_sub_def np_maximum_def
  ndim_def Let_def


text \<open>
  C8 as stated fails in float64 arithmetic. With x the 1-D array holding \<open>2^512\<close> and
  \<open>k = 2\<close>, the array \<open>k * x\<close> holds \<open>2^513\<close>, both dot products overflow to infinity, the
  factor is NaN, not k, and the program returns \<open>[NaN, NaN]\<close>, not \<open>[0, |log(2)|]\<close>.
\<close>

theorem pure_scaling_float64_counterexample:
  "r64 big = Fin big
   \<and> scale_rnd r64 (Fin 2) (Array1 [Fin big]) = Array1 [Fin (2 * big)]
   \<and> compute_alphas_rnd r64 (as_2d (Array1 [Fin big]))
         (as_2d (scale_rnd r64 (Fin 2) (Array1 [Fin big]))) 1 = [NaN]
   \<and> compute_waveform_distance_rnd r64 (Array1 [Fin big]) (scale_rnd r64 (Fin 2) (Array1 [Fin big]))
       = Inr (Array1 [NaN, NaN])"
  by (simp add: float64_program)


end
